theory Spec2Isabelle
  imports Main "HOL-Library.Multiset"
begin

section \<open>Python list slices\<close>

text \<open>
  The source slices lists with constant and computed bounds (\<^verbatim>\<open>xs[:2]\<close>, \<^verbatim>\<open>xs[3:]\<close>,
  \<^verbatim>\<open>xs[-n:]\<close>, \<^verbatim>\<open>xs[:-3]\<close>). A Python slice never raises: a negative bound counts from
  the end of the list and every bound is clamped to the list. Note \<^verbatim>\<open>xs[-0:]\<close>, which
  is \<^verbatim>\<open>xs[0:]\<close>, the whole list.
\<close>

definition slice_from :: "int \<Rightarrow> 'a list \<Rightarrow> 'a list" where
  \<comment> \<open>\<^verbatim>\<open>xs[i:]\<close>\<close>
  "slice_from i xs = (if 0 \<le> i then drop (nat i) xs else drop (length xs - nat (- i)) xs)"

definition slice_to :: "int \<Rightarrow> 'a list \<Rightarrow> 'a list" where
  \<comment> \<open>\<^verbatim>\<open>xs[:i]\<close>\<close>
  "slice_to i xs = (if 0 \<le> i then take (nat i) xs else take (length xs - nat (- i)) xs)"

section \<open>Messages\<close>

text \<open>
  A message is a dict with the keys \<^verbatim>\<open>role\<close> and \<^verbatim>\<open>content\<close>. The content is either a
  plain string or a list of content blocks
  \<^verbatim>\<open>{"type": ..., "text": ..., "cache_control": {"type": ...}}\<close>. The \<^verbatim>\<open>text\<close> of a block
  is whatever \<^verbatim>\<open>msg["content"]\<close> was when the block was built, so it is a content again.
\<close>

datatype cache_control = CacheControl (cc_type: string)

datatype content = Text string | Blocks "content_block list"
  and content_block =
    ContentBlock (block_type: string) (block_text: content)
      (block_cache_control: "cache_control option")

record message =
  role :: string
  content :: content

text \<open>
  The wording of the prompt templates (\<^verbatim>\<open>CLAUDE_SYSTEM_PROMPT\<close>,
  \<^verbatim>\<open>CLAUDE_GENERATION_PROMPT\<close>, ...) is long literal text on which no operation of the
  program depends; the templates are taken as parameters, so that every result holds for
  every wording.
\<close>

record templates =
  CLAUDE_SYSTEM_PROMPT :: string
  CLAUDE_GENERATION_PROMPT :: string
  CLAUDE_MODIFICATION_PROMPT :: string
  OPENAI_SYSTEM_PROMPT :: string
  OPENAI_GENERATION_PROMPT :: string
  OPENAI_MODIFICATION_PROMPT :: string

definition CLAUDE_EXAMPLES :: "templates \<Rightarrow> message list" where
  "CLAUDE_EXAMPLES T =
     [\<lparr>role = ''user'',
       content = Blocks
         [ContentBlock ''text''
            (Text (CLAUDE_GENERATION_PROMPT T @ [CHR 0x0A, CHR 0x0A] @ ''---''
                     @ [CHR 0x0A, CHR 0x0A] @ CLAUDE_MODIFICATION_PROMPT T))
            (Some (CacheControl ''ephemeral''))]\<rparr>,
      \<lparr>role = ''assistant'',
       content = Text ''I understand both React code generation and modification formats. For generation requests, I will create complete React components in JSON format. For modification requests, I will provide precise line-based changes WITHOUT old_content field. I will always start with brief analysis, then output only valid JSON without markdown.''\<rparr>]"

definition OPENAI_EXAMPLES :: "templates \<Rightarrow> message list" where
  "OPENAI_EXAMPLES T =
     [\<lparr>role = ''user'',
       content = Text (OPENAI_GENERATION_PROMPT T @ [CHR 0x0A, CHR 0x0A] @ ''---''
                         @ [CHR 0x0A, CHR 0x0A] @ OPENAI_MODIFICATION_PROMPT T)\<rparr>,
      \<lparr>role = ''assistant'',
       content = Text ''I understand both React code generation and modification formats EXACTLY. For generation, I create complete React components in JSON format. For modifications, I provide precise line-based changes WITHOUT old_content field. I ALWAYS start with brief analysis, then output ONLY valid JSON without markdown code blocks. I am EXTREMELY PRECISE with line numbers and count them EXACTLY.''\<rparr>]"

section \<open>The conversation buffer\<close>

text \<open>
  \<^verbatim>\<open>ClaudeConversationBuffer\<close> and \<^verbatim>\<open>OpenAIConversationBuffer\<close> have the same fields and,
  line for line, the same \<^verbatim>\<open>__init__\<close>, \<^verbatim>\<open>add_message\<close>, \<^verbatim>\<open>_trim_if_needed\<close> and
  \<^verbatim>\<open>clear\<close>. They differ in the examples that \<^verbatim>\<open>inject_examples\<close> stores and in
  \<^verbatim>\<open>get_messages_for_api\<close>. The object is mutated in place; the model returns the
  updated buffer.
\<close>

record conversation_buffer =
  messages :: "message list"
  max_messages :: int
  examples_injected :: bool

definition ConversationBuffer :: "int \<Rightarrow> conversation_buffer" where
  \<comment> \<open>\<^verbatim>\<open>__init__(self, max_messages=20)\<close>\<close>
  "ConversationBuffer n = \<lparr>messages = [], max_messages = n, examples_injected = False\<rparr>"

definition inject_examples :: "message list \<Rightarrow> conversation_buffer \<Rightarrow> conversation_buffer" where
  \<comment> \<open>the first argument is the class's examples constant\<close>
  "inject_examples EXAMPLES b =
     (if \<not> examples_injected b \<and> messages b = []
      then b\<lparr>messages := EXAMPLES, examples_injected := True\<rparr>
      else b)"

definition trim_if_needed :: "conversation_buffer \<Rightarrow> conversation_buffer" where
  "trim_if_needed b =
     (if int (length (messages b)) > max_messages b then
        let b1 =
          (if examples_injected b then
             let examples = slice_to 2 (messages b);
                 recent = slice_from (- (max_messages b - 2)) (messages b)
             in b\<lparr>messages := examples @ recent\<rparr>
           else b\<lparr>messages := slice_from (- max_messages b) (messages b)\<rparr>)
        in if length (messages b1) > 2 \<and> role (messages b1 ! 2) \<noteq> ''user''
           then b1\<lparr>messages := slice_to 2 (messages b1) @ slice_from 3 (messages b1)\<rparr>
           else b1
      else b)"

definition add_message :: "string \<Rightarrow> string \<Rightarrow> conversation_buffer \<Rightarrow> conversation_buffer" where
  "add_message r c b =
     trim_if_needed (b\<lparr>messages := messages b @ [\<lparr>role = r, content = Text c\<rparr>]\<rparr>)"

definition clear :: "conversation_buffer \<Rightarrow> conversation_buffer" where
  "clear b = b\<lparr>messages := [], examples_injected := False\<rparr>"

definition claude_inject_examples :: "templates \<Rightarrow> conversation_buffer \<Rightarrow> conversation_buffer" where
  "claude_inject_examples T = inject_examples (CLAUDE_EXAMPLES T)"

definition openai_inject_examples :: "templates \<Rightarrow> conversation_buffer \<Rightarrow> conversation_buffer" where
  "openai_inject_examples T = inject_examples (OPENAI_EXAMPLES T)"

text \<open>
  The cache wrapper that \<^verbatim>\<open>get_messages_for_api\<close> builds around the last message of the
  older prefix, and the loop over that prefix (\<^verbatim>\<open>enumerate\<close>): every message is copied
  (role and content), the one at the last index gets the wrapped content.
\<close>

definition cache_wrap :: "message \<Rightarrow> message" where
  "cache_wrap msg =
     \<lparr>role = role msg,
      content = Blocks [ContentBlock ''text'' (content msg) (Some (CacheControl ''ephemeral''))]\<rparr>"

fun format_cacheable :: "message list \<Rightarrow> message list" where
  "format_cacheable [] = []"
| "format_cacheable [msg] = [cache_wrap msg]"
| "format_cacheable (msg # rest) = \<lparr>role = role msg, content = content msg\<rparr> # format_cacheable rest"

definition claude_get_messages_for_api :: "conversation_buffer \<Rightarrow> message list" where
  "claude_get_messages_for_api b =
     (if length (messages b) \<le> 3 then messages b
      else if examples_injected b then
        let examples = slice_to 2 (messages b);
            conversation = slice_from 2 (messages b)
        in if length conversation \<le> 3 then messages b
           else
             let cacheable_conversation = slice_to (- 3) conversation;
                 recent_conversation = slice_from (- 3) conversation
             in examples @ format_cacheable cacheable_conversation @ recent_conversation
      else
        let messages_to_cache = slice_to (- 3) (messages b);
            recent_messages = slice_from (- 3) (messages b)
        in format_cacheable messages_to_cache @ recent_messages)"

definition openai_get_messages_for_api :: "conversation_buffer \<Rightarrow> message list" where
  "openai_get_messages_for_api b = messages b"

text \<open>A call of one of the three public methods that change the buffer.\<close>

datatype buffer_call = InjectExamples | AddMessage string string | Clear

fun apply_call :: "message list \<Rightarrow> conversation_buffer \<Rightarrow> buffer_call \<Rightarrow> conversation_buffer" where
  "apply_call EXAMPLES b InjectExamples = inject_examples EXAMPLES b"
| "apply_call EXAMPLES b (AddMessage r c) = add_message r c b"
| "apply_call EXAMPLES b Clear = clear b"

definition apply_calls :: "message list \<Rightarrow> conversation_buffer \<Rightarrow> buffer_call list \<Rightarrow> conversation_buffer" where
  "apply_calls EXAMPLES b cs = foldl (apply_call EXAMPLES) b cs"

section \<open>Line-based modifications\<close>

text \<open>
  The decoded JSON payload of a reply, typed as the prompts prescribe it: a change is a
  dict with the keys \<^verbatim>\<open>file\<close>, \<^verbatim>\<open>content\<close> (generation) and \<^verbatim>\<open>modifications\<close>
  (modification), a modification a dict with the keys below. A key that may be absent is
  an option; \<^verbatim>\<open>d.get(k, default)\<close> is \<open>get_or\<close>. A \<^verbatim>\<open>start_line\<close> that is present is an
  integer, so the comparison inside \<^verbatim>\<open>sorted\<close> never raises.
\<close>

record modification =
  operation :: "string option"
  start_line :: "int option"
  end_line :: "int option"
  new_content :: "string option"
  old_content :: "string option"

record change =
  change_file :: "string option"
  change_content :: "string option"
  modifications :: "modification list option"

definition get_or :: "'a option \<Rightarrow> 'a \<Rightarrow> 'a" where
  "get_or v d = (case v of None \<Rightarrow> d | Some x \<Rightarrow> x)"

text \<open>
  \<^verbatim>\<open>sorted(xs, key=..., reverse=True)\<close>: Python's sort is stable, and with
  \<^verbatim>\<open>reverse=True\<close> it still keeps elements with equal keys in their original order; it
  sorts as if the list were reversed, sorted stably in ascending order, and reversed again.
\<close>

definition sorted_reverse :: "('a \<Rightarrow> int) \<Rightarrow> 'a list \<Rightarrow> 'a list" where
  "sorted_reverse key xs = rev (sort_key key (rev xs))"

text \<open>
  \<^verbatim>\<open>file_modifications = defaultdict(list)\<close> is a dict, which keeps its keys in insertion
  order: an association list. \<^verbatim>\<open>file_modifications[file_path].append(mod)\<close> appends to the
  list of an existing key and otherwise inserts the key, at the end, with a one-element list.
\<close>

fun append_to :: "string \<Rightarrow> 'a \<Rightarrow> (string \<times> 'a list) list \<Rightarrow> (string \<times> 'a list) list" where
  "append_to k v [] = [(k, [v])]"
| "append_to k v ((k', vs) # d) =
     (if k' = k then (k', vs @ [v]) # d else (k', vs) # append_to k v d)"

definition group_change ::
  "(string \<times> modification list) list \<Rightarrow> change \<Rightarrow> (string \<times> modification list) list" where
  \<comment> \<open>the body of the loop \<^verbatim>\<open>for change in changes\<close>\<close>
  "group_change file_modifications c =
     (let file_path = get_or (change_file c) [];
          mods = get_or (modifications c) []
      in foldl (\<lambda>d m. append_to file_path m d) file_modifications mods)"

definition sort_modifications :: "change list \<Rightarrow> change list" where
  "sort_modifications changes =
     (let file_modifications = foldl group_change [] changes
      in map (\<lambda>(file_path, mods).
                \<lparr>change_file = Some file_path, change_content = None,
                 modifications = Some (sorted_reverse (\<lambda>x. get_or (start_line x) 0) mods)\<rparr>)
             file_modifications)"

text \<open>
  The payload: \<^verbatim>\<open>parsed\<close>, the dict that \<^verbatim>\<open>json.loads\<close> returns. The value of its key
  \<^verbatim>\<open>type\<close> is any JSON value: a string, \<^verbatim>\<open>null\<close> (Python's \<^verbatim>\<open>None\<close>), or another value (a
  number, a boolean, an array or an object), which is given by its JSON text.
\<close>

datatype type_value = TypeStr string | TypeNull | TypeOther string

record payload =
  type :: "type_value option"
  changes :: "change list option"
  summary :: "string option"
  error :: "string option"

definition remove_old_content :: "payload \<Rightarrow> payload" where
  "remove_old_content parsed =
     (if type parsed = Some (TypeStr ''code_changes'') then
        (case changes parsed of
           None \<Rightarrow> parsed
         | Some cs \<Rightarrow>
             parsed\<lparr>changes := Some (map (\<lambda>c.
               (case modifications c of
                  None \<Rightarrow> c
                | Some ms \<Rightarrow> c\<lparr>modifications := Some (map (\<lambda>m. m\<lparr>old_content := None\<rparr>) ms)\<rparr>)) cs)\<rparr>)
      else parsed)"

section \<open>Strings\<close>

text \<open>
  The string methods the request handler uses. A character is a code point below 256:
  \<^verbatim>\<open>lower\<close> maps the capital letters of ASCII and of Latin-1 (192 to 222, without the
  multiplication sign 215), and the white space that \<^verbatim>\<open>strip\<close> removes is that of
  \<^verbatim>\<open>str.isspace\<close> below 256: 9 to 13, 28 to 32, 133 (next line) and 160 (no-break space).
\<close>

definition lower_char :: "char \<Rightarrow> char" where
  "lower_char c =
     (let n = (of_char c :: nat)
      in if (65 \<le> n \<and> n \<le> 90) \<or> (192 \<le> n \<and> n \<le> 222 \<and> n \<noteq> 215)
         then char_of (n + 32) else c)"

definition lower :: "string \<Rightarrow> string" where
  "lower s = map lower_char s"

fun contains :: "string \<Rightarrow> string \<Rightarrow> bool" where
  \<comment> \<open>\<^verbatim>\<open>kw in s\<close>\<close>
  "contains kw [] = (kw = [])"
| "contains kw (c # s) = (take (length kw) (c # s) = kw \<or> contains kw s)"

fun find_char :: "char \<Rightarrow> string \<Rightarrow> int" where
  \<comment> \<open>\<^verbatim>\<open>s.find(c)\<close> for a one-character \<^verbatim>\<open>c\<close>: the lowest index, or -1\<close>
  "find_char c [] = - 1"
| "find_char c (x # s) =
     (if x = c then 0 else (let i = find_char c s in if i = - 1 then - 1 else i + 1))"

definition rfind_char :: "char \<Rightarrow> string \<Rightarrow> int" where
  \<comment> \<open>\<^verbatim>\<open>s.rfind(c)\<close>: the highest index, or -1\<close>
  "rfind_char c s =
     (let i = find_char c (rev s) in if i = - 1 then - 1 else int (length s) - 1 - i)"

definition slice :: "int \<Rightarrow> int \<Rightarrow> 'a list \<Rightarrow> 'a list" where
  \<comment> \<open>\<^verbatim>\<open>xs[i:j]\<close> for \<open>0 \<le> i\<close> and \<open>0 \<le> j\<close>, the only case the handler reaches\<close>
  "slice i j xs = take (nat j - nat i) (drop (nat i) xs)"

definition is_space :: "char \<Rightarrow> bool" where
  "is_space c =
     (let n = (of_char c :: nat)
      in (9 \<le> n \<and> n \<le> 13) \<or> (28 \<le> n \<and> n \<le> 32) \<or> n = 133 \<or> n = 160)"

definition strip :: "string \<Rightarrow> string" where
  "strip s = rev (dropWhile is_space (rev (dropWhile is_space s)))"

fun join :: "string \<Rightarrow> string list \<Rightarrow> string" where
  \<comment> \<open>\<^verbatim>\<open>sep.join(parts)\<close>\<close>
  "join sep [] = []"
| "join sep [x] = x"
| "join sep (x # xs) = x @ sep @ join sep xs"

abbreviation nl :: string where
  "nl \<equiv> [CHR 0x0A]"

section \<open>The request handler\<close>

subsection \<open>Requests, responses and the session store\<close>

record file_context =
  path :: string
  file_content :: string

datatype workspace_node =
  WorkspaceNode (node_name: string) (node_type: string) (node_children: "workspace_node list option")

record workspace_tree_t =
  root :: string
  children :: "workspace_node list"

record chat_context =
  open_files :: "file_context list option"
  workspace_tree :: "workspace_tree_t option"

record chat_request =
  query :: string
  request_context :: "chat_context option"
  session_id :: string
  model_name :: "string option"

record token_usage =
  input_tokens :: int
  output_tokens :: int
  cache_creation_input_tokens :: int
  cache_read_input_tokens :: int
  cached_tokens :: int

record chat_response =
  response_type :: string
  parsed :: payload
  response_session_id :: string
  is_code_change :: bool
  request_type :: string
  response_workspace_tree :: "workspace_tree_t option"
  usage :: "token_usage option"
  response_model_name :: "string option"
  provider :: "string option"

datatype http_exception = HTTPException (status_code: int) (detail: string)

text \<open>
  The module's globals: \<^verbatim>\<open>conversations\<close>, a buffer for each provider and session id, and
  \<^verbatim>\<open>generated_code\<close>, for each session id the last generated code or \<^verbatim>\<open>None\<close>.
\<close>

record store =
  conversations :: "string \<Rightarrow> string \<rightharpoonup> conversation_buffer"
  generated_code :: "string \<rightharpoonup> string option"

text \<open>
  What lies outside the program is a parameter. \<open>claude_invoke\<close> and \<open>openai_invoke\<close>
  are the bodies of the \<^verbatim>\<open>try\<close> blocks of the two \<^verbatim>\<open>call_api\<close> methods (the resolution of
  the model id, the remote call, the decoding of its reply): they return the reply's text
  and its usage dict, or the text of the exception that was raised. \<open>json_loads\<close> is
  \<^verbatim>\<open>json.loads\<close> followed by the typing of its result as a payload, with the text of the
  exception when it raises; \<open>json_dumps\<close> and \<open>dump_workspace_tree\<close> are
  \<^verbatim>\<open>json.dumps(..., indent=2)\<close> on a payload and on \<^verbatim>\<open>workspace_tree.dict()\<close>.
  \<open>coerce_str\<close> and \<open>validation_error\<close> are pydantic's validation of a string field,
  described with \<open>validate_type\<close> below.
\<close>

record env =
  claude_invoke :: "message list \<Rightarrow> string \<Rightarrow> string \<Rightarrow> string + string \<times> (string \<rightharpoonup> int)"
  openai_invoke :: "message list \<Rightarrow> string \<Rightarrow> string \<Rightarrow> string + string \<times> (string \<rightharpoonup> int)"
  json_loads :: "string \<Rightarrow> string + payload"
  json_dumps :: "payload \<Rightarrow> string"
  dump_workspace_tree :: "workspace_tree_t \<Rightarrow> string"
  coerce_str :: "string \<Rightarrow> string option"
  validation_error :: "type_value \<Rightarrow> string"

definition claude_call_api ::
  "env \<Rightarrow> message list \<Rightarrow> string \<Rightarrow> string \<Rightarrow> string + string \<times> (string \<rightharpoonup> int)" where
  "claude_call_api E msgs system_prompt model =
     (case claude_invoke E msgs system_prompt model of
        Inl e \<Rightarrow> Inl (''Claude API Error: '' @ e)
      | Inr r \<Rightarrow> Inr r)"

definition openai_call_api ::
  "env \<Rightarrow> message list \<Rightarrow> string \<Rightarrow> string \<Rightarrow> string + string \<times> (string \<rightharpoonup> int)" where
  "openai_call_api E msgs system_prompt model =
     (case openai_invoke E msgs system_prompt model of
        Inl e \<Rightarrow> Inl (''OpenAI API Error: '' @ e)
      | Inr r \<Rightarrow> Inr r)"

definition is_claude_model :: "string \<Rightarrow> bool" where
  "is_claude_model m =
     (m \<in> set [''claude-3-5-sonnet'', ''claude-3-7-sonnet'', ''claude-sonnet-4'', ''claude-sonnet-4-5''])"

definition is_openai_model :: "string \<Rightarrow> bool" where
  "is_openai_model m = (m \<in> set [''gpt-4o'', ''gpt-4o-mini'', ''o1'', ''o1-mini''])"

subsection \<open>Helper functions\<close>

definition determine_provider :: "string \<Rightarrow> string" where
  "determine_provider m =
     (if is_claude_model m then ''claude''
      else if is_openai_model m then ''openai''
      else ''claude'')"

definition build_context_string :: "env \<Rightarrow> chat_context option \<Rightarrow> string" where
  "build_context_string E ctx_opt =
     (case ctx_opt of
        None \<Rightarrow> []
      | Some ctx \<Rightarrow>
          (let files_part =
                 (case open_files ctx of
                    None \<Rightarrow> []
                  | Some fs \<Rightarrow>
                      if fs = [] then []
                      else [''<open_files>'']
                           @ concat (map (\<lambda>f. [''<file path='' @ [CHR 0x27] @ path f @ [CHR 0x27] @ ''>'',
                                                file_content f, ''</file>'']) fs)
                           @ [''</open_files>'']);
               tree_part =
                 (case workspace_tree ctx of
                    None \<Rightarrow> []
                  | Some t \<Rightarrow>
                      [''<workspace_structure>'', ''<root>'' @ root t @ ''</root>'',
                       dump_workspace_tree E t, ''</workspace_structure>''])
           in join nl (files_part @ tree_part)))"

definition is_modification_request :: "string \<Rightarrow> bool \<Rightarrow> bool \<Rightarrow> bool" where
  "is_modification_request q has_context has_previous_code =
     (let modification_keywords =
            [''change'', ''modify'', ''update'', ''fix'', ''add'', ''remove'', ''delete'',
             ''edit'', ''refactor'', ''improve'', ''adjust'', ''alter'', ''correct'',
             ''replace'', ''swap'', ''rename'', ''move'', ''convert''];
          reference_keywords =
            [''the code'', ''above'', ''previous'', ''existing'', ''current'',
             ''this code'', ''that function'', ''the function'', ''this component''];
          query_lower = lower q;
          has_modification_keyword = list_ex (\<lambda>keyword. contains keyword query_lower) modification_keywords;
          has_reference = list_ex (\<lambda>keyword. contains keyword query_lower) reference_keywords
      in (has_modification_keyword \<or> has_reference) \<and> (has_context \<or> has_previous_code))"

definition is_likely_code_request :: "string \<Rightarrow> bool" where
  "is_likely_code_request q =
     (let code_keywords =
            [''create'', ''generate'', ''build'', ''make'', ''add'', ''modify'',
             ''change'', ''update'', ''fix'', ''remove'', ''delete'', ''refactor'',
             ''component'', ''hook'', ''function'', ''app'', ''page'', ''form''];
          query_lower = lower q
      in list_ex (\<lambda>keyword. contains keyword query_lower) code_keywords)"

subsection \<open>\<^verbatim>\<open>process_chat_request\<close>\<close>

text \<open>The part of the handler before the provider is called.\<close>

definition request_model_name :: "chat_request \<Rightarrow> string" where
  \<comment> \<open>\<^verbatim>\<open>request.model_name or "claude-sonnet-4-5"\<close>\<close>
  "request_model_name request =
     (case model_name request of
        None \<Rightarrow> ''claude-sonnet-4-5''
      | Some m \<Rightarrow> if m = [] then ''claude-sonnet-4-5'' else m)"

definition has_context_of :: "chat_context option \<Rightarrow> bool" where
  \<comment> \<open>\<^verbatim>\<open>context is not None and (context.open_files or context.workspace_tree)\<close>, as a truth value\<close>
  "has_context_of ctx_opt =
     (case ctx_opt of
        None \<Rightarrow> False
      | Some ctx \<Rightarrow>
          (case open_files ctx of None \<Rightarrow> False | Some fs \<Rightarrow> fs \<noteq> [])
          \<or> workspace_tree ctx \<noteq> None)"

definition session_buffer :: "store \<Rightarrow> string \<Rightarrow> string \<Rightarrow> conversation_buffer" where
  \<comment> \<open>the session's buffer, a new one (\<^verbatim>\<open>max_messages=20\<close>) if the session is not in the store\<close>
  "session_buffer st prov sid =
     (case conversations st prov sid of None \<Rightarrow> ConversationBuffer 20 | Some b \<Rightarrow> b)"

definition session_generated_code :: "store \<Rightarrow> string \<Rightarrow> string \<Rightarrow> (string \<rightharpoonup> string option)" where
  \<comment> \<open>\<^verbatim>\<open>generated_code\<close> after the initialisation of the session\<close>
  "session_generated_code st prov sid =
     (case conversations st prov sid of
        None \<Rightarrow> (generated_code st)(sid \<mapsto> None)
      | Some b \<Rightarrow> generated_code st)"

definition previous_code :: "(string \<rightharpoonup> string option) \<Rightarrow> string \<Rightarrow> string option" where
  \<comment> \<open>\<^verbatim>\<open>generated_code.get(session_id)\<close>\<close>
  "previous_code gen sid = (case gen sid of None \<Rightarrow> None | Some v \<Rightarrow> v)"

definition current_message :: "env \<Rightarrow> chat_request \<Rightarrow> string option \<Rightarrow> string" where
  "current_message E request prev =
     (let q = query request;
          has_previous_code = (prev \<noteq> None);
          has_context = has_context_of (request_context request);
          context_string = build_context_string E (request_context request);
          is_modification = is_modification_request q has_context has_previous_code;
          current_message_parts =
            (if context_string \<noteq> [] then
               [''<workspace_context>'' @ nl @ context_string @ nl @ ''</workspace_context>'' @ nl]
             else if has_previous_code \<and> is_modification \<and> \<not> has_context then
               [''<previous_code>'' @ nl @ get_or prev [] @ nl @ ''</previous_code>'' @ nl]
             else [])
            @ [''<user_request>'' @ nl @ q @ nl @ ''</user_request>'']
      in join nl current_message_parts)"

definition prepare_buffer :: "templates \<Rightarrow> string \<Rightarrow> conversation_buffer \<Rightarrow> conversation_buffer" where
  \<comment> \<open>\<^verbatim>\<open>if not conv_buffer.examples_injected: conv_buffer.inject_examples()\<close>\<close>
  "prepare_buffer T prov b =
     (if \<not> examples_injected b then
        (if prov = ''claude'' then claude_inject_examples T b else openai_inject_examples T b)
      else b)"

text \<open>The usage record of the response (``normalize between providers'').\<close>

definition prepare_token_usage :: "string \<Rightarrow> (string \<rightharpoonup> int) \<Rightarrow> token_usage" where
  "prepare_token_usage prov u =
     (if prov = ''claude'' then
        \<lparr>input_tokens = get_or (u ''input_tokens'') 0,
         output_tokens = get_or (u ''output_tokens'') 0,
         cache_creation_input_tokens = get_or (u ''cache_creation_input_tokens'') 0,
         cache_read_input_tokens = get_or (u ''cache_read_input_tokens'') 0,
         cached_tokens = 0\<rparr>
      else
        \<lparr>input_tokens = get_or (u ''prompt_tokens'') 0,
         output_tokens = get_or (u ''completion_tokens'') 0,
         cache_creation_input_tokens = 0,
         cache_read_input_tokens = 0,
         cached_tokens = get_or (u ''cached_tokens'') 0\<rparr>)"

definition response_tree :: "chat_request \<Rightarrow> workspace_tree_t option" where
  \<comment> \<open>\<^verbatim>\<open>context.workspace_tree.dict() if context and context.workspace_tree else None\<close>\<close>
  "response_tree request =
     (case request_context request of None \<Rightarrow> None | Some ctx \<Rightarrow> workspace_tree ctx)"

definition extract_json :: "env \<Rightarrow> string \<Rightarrow> string + payload" where
  "extract_json E response =
     (let json_start = find_char (CHR ''{'') response;
          json_end = rfind_char (CHR ''}'') response + 1
      in if json_start \<noteq> - 1 \<and> json_end > json_start
         then json_loads E (slice json_start json_end response)
         else Inl ''No JSON found'')"

text \<open>
  \<^verbatim>\<open>ChatResponse\<close> declares \<^verbatim>\<open>type: str\<close>, and pydantic validates the field when the
  response is built: a string is stored as it is, \<^verbatim>\<open>None\<close> is rejected with a
  \<^verbatim>\<open>ValidationError\<close>, and what happens to another value depends on the version of
  pydantic (version 1 turns a number into its text, version 2 rejects it): \<open>coerce_str\<close>
  is the string that the installed version makes of such a value, if it accepts it, and
  \<open>validation_error\<close> is the text of the exception when it does not.
\<close>

definition validate_type :: "env \<Rightarrow> type_value \<Rightarrow> string + string" where
  "validate_type E v =
     (case v of
        TypeStr s \<Rightarrow> Inr s
      | TypeNull \<Rightarrow> Inl (validation_error E TypeNull)
      | TypeOther j \<Rightarrow>
          (case coerce_str E j of
             Some s \<Rightarrow> Inr s
           | None \<Rightarrow> Inl (validation_error E (TypeOther j))))"

text \<open>
  The \<^verbatim>\<open>except\<close> branch of the block that parses the reply: the response for the text of
  the exception that was caught.
\<close>

definition fallback_response ::
  "chat_request \<Rightarrow> string \<Rightarrow> string \<Rightarrow> token_usage \<Rightarrow> string \<Rightarrow> string \<Rightarrow> chat_response" where
  "fallback_response request model prov tokens response e =
     (if \<not> is_likely_code_request (query request) then
        \<lparr>response_type = ''conversation'',
         parsed = \<lparr>type = Some (TypeStr ''conversation''), changes = None,
                   summary = Some (strip response), error = None\<rparr>,
         response_session_id = session_id request, is_code_change = False,
         request_type = ''conversation'', response_workspace_tree = response_tree request,
         usage = Some tokens, response_model_name = Some model, provider = Some prov\<rparr>
      else
        \<lparr>response_type = ''error'',
         parsed = \<lparr>type = Some (TypeStr ''error''), changes = None,
                   summary = Some (strip response),
                   error = Some (''Expected code but received unexpected response: '' @ e)\<rparr>,
         response_session_id = session_id request, is_code_change = False,
         request_type = ''error'', response_workspace_tree = response_tree request,
         usage = Some tokens, response_model_name = Some model, provider = Some prov\<rparr>)"

text \<open>
  The \<^verbatim>\<open>try\<close> block: an exception raised by \<^verbatim>\<open>json.loads\<close>, the \<^verbatim>\<open>ValueError\<close> for a reply
  without a JSON span and the \<^verbatim>\<open>ValidationError\<close> of \<^verbatim>\<open>ChatResponse\<close> all end in the
  \<^verbatim>\<open>except\<close> branch; the last one is raised after \<^verbatim>\<open>generated_code\<close> was updated.
\<close>

definition parse_response ::
  "env \<Rightarrow> chat_request \<Rightarrow> string \<Rightarrow> string \<Rightarrow> token_usage \<Rightarrow> string
     \<Rightarrow> (string \<rightharpoonup> string option) \<Rightarrow> chat_response \<times> (string \<rightharpoonup> string option)" where
  "parse_response E request model prov tokens response gen =
     (case extract_json E response of
        Inr parsed0 \<Rightarrow>
          (let parsed1 = remove_old_content parsed0;
               gen1 = (if type parsed1 = Some (TypeStr ''code_generation'')
                       then gen(session_id request \<mapsto> Some (json_dumps E parsed1))
                       else gen);
               parsed2 = (if type parsed1 = Some (TypeStr ''code_changes'') then
                            (case changes parsed1 of
                               None \<Rightarrow> parsed1
                             | Some cs \<Rightarrow> parsed1\<lparr>changes := Some (sort_modifications cs)\<rparr>)
                          else parsed1);
               rtype = get_or (type parsed2) (TypeStr ''code_generation'');
               is_code = (rtype \<in> set [TypeStr ''code_generation'', TypeStr ''code_changes'']);
               rqtype = (if rtype = TypeStr ''code_changes'' then ''modification'' else ''generation'')
           in case validate_type E rtype of
                Inr t \<Rightarrow>
                  (\<lparr>response_type = t, parsed = parsed2,
                    response_session_id = session_id request, is_code_change = is_code,
                    request_type = rqtype, response_workspace_tree = response_tree request,
                    usage = Some tokens, response_model_name = Some model, provider = Some prov\<rparr>,
                   gen1)
              | Inl e \<Rightarrow> (fallback_response request model prov tokens response e, gen1))
      | Inl e \<Rightarrow> (fallback_response request model prov tokens response e, gen))"

text \<open>
  The handler. It mutates the two globals; the model takes the store and returns the new
  one next to the response, or next to the \<^verbatim>\<open>HTTPException\<close> that the handler raises.
  \<open>begin_turn\<close> is the handler up to the \<^verbatim>\<open>try\<close> block of the provider call: it returns
  the values of the local variables that the rest of the handler reads. \<open>call_api\<close> is the
  call inside that block.
\<close>

definition empty_store :: store where
  \<comment> \<open>the globals when the module is loaded\<close>
  "empty_store = \<lparr>conversations = (\<lambda>prov. Map.empty), generated_code = Map.empty\<rparr>"

record turn =
  turn_provider :: string
  turn_model :: string
  turn_system_prompt :: string
  turn_buffer :: conversation_buffer
  turn_generated_code :: "string \<rightharpoonup> string option"
  turn_messages :: "message list"

definition begin_turn :: "env \<Rightarrow> templates \<Rightarrow> chat_request \<Rightarrow> store \<Rightarrow> turn" where
  "begin_turn E T request st =
     (let sid = session_id request;
          model = request_model_name request;
          prov = determine_provider model;
          conv_buffer = session_buffer st prov sid;
          gen = session_generated_code st prov sid;
          conv_buffer1 = prepare_buffer T prov conv_buffer;
          system_prompt = (if prov = ''claude'' then CLAUDE_SYSTEM_PROMPT T else OPENAI_SYSTEM_PROMPT T);
          conv_buffer2 = add_message ''user'' (current_message E request (previous_code gen sid)) conv_buffer1;
          msgs = (if prov = ''claude'' then claude_get_messages_for_api conv_buffer2
                  else openai_get_messages_for_api conv_buffer2)
      in \<lparr>turn_provider = prov, turn_model = model, turn_system_prompt = system_prompt,
          turn_buffer = conv_buffer2, turn_generated_code = gen, turn_messages = msgs\<rparr>)"

definition call_api :: "env \<Rightarrow> turn \<Rightarrow> string + string \<times> (string \<rightharpoonup> int)" where
  "call_api E t =
     (if turn_provider t = ''claude''
      then claude_call_api E (turn_messages t) (turn_system_prompt t) (turn_model t)
      else openai_call_api E (turn_messages t) (turn_system_prompt t) (turn_model t))"

definition store_turn :: "store \<Rightarrow> chat_request \<Rightarrow> turn \<Rightarrow> conversation_buffer
     \<Rightarrow> (string \<rightharpoonup> string option) \<Rightarrow> store" where
  \<comment> \<open>the globals with the session's buffer and the generated code as given\<close>
  "store_turn st request t b gen =
     \<lparr>conversations = (conversations st)
        (turn_provider t := (conversations st (turn_provider t))(session_id request \<mapsto> b)),
      generated_code = gen\<rparr>"

definition process_chat_request ::
  "env \<Rightarrow> templates \<Rightarrow> chat_request \<Rightarrow> store \<Rightarrow> (http_exception + chat_response) \<times> store" where
  "process_chat_request E T request st =
     (let t = begin_turn E T request st
      in case call_api E t of
           Inl e \<Rightarrow>
             (Inl (HTTPException 500 (''API Error: '' @ e)),
              store_turn st request t (turn_buffer t) (turn_generated_code t))
         | Inr (response, u) \<Rightarrow>
             (let conv_buffer3 = add_message ''assistant'' response (turn_buffer t);
                  tokens = prepare_token_usage (turn_provider t) u;
                  (resp, gen3) = parse_response E request (turn_model t) (turn_provider t) tokens
                                   response (turn_generated_code t)
              in (Inr resp, store_turn st request t conv_buffer3 gen3)))"

section \<open>Vocabulary of the properties\<close>

definition is_plain :: "message \<Rightarrow> bool" where
  \<comment> \<open>the content is a plain string\<close>
  "is_plain m = (case content m of Text s \<Rightarrow> True | Blocks bs \<Rightarrow> False)"

definition has_cache_marker :: "message \<Rightarrow> bool" where
  \<comment> \<open>some content block of the message carries a \<^verbatim>\<open>cache_control\<close>\<close>
  "has_cache_marker m =
     (case content m of
        Text s \<Rightarrow> False
      | Blocks bs \<Rightarrow> list_ex (\<lambda>blk. block_cache_control blk \<noteq> None) bs)"

fun preceded_by_user :: "bool \<Rightarrow> string list \<Rightarrow> bool" where
  \<comment> \<open>every role of the list other than \<^verbatim>\<open>user\<close> comes directly after a \<^verbatim>\<open>user\<close>; the flag
      says whether a \<^verbatim>\<open>user\<close> comes directly before the list\<close>
  "preceded_by_user p [] = True"
| "preceded_by_user p (r # rs) = ((r = ''user'' \<or> p) \<and> preceded_by_user (r = ''user'') rs)"

definition add_messages :: "conversation_buffer \<Rightarrow> (string \<times> string) list \<Rightarrow> conversation_buffer" where
  \<comment> \<open>a sequence of \<^verbatim>\<open>add_message(role, content)\<close> calls\<close>
  "add_messages b calls = foldl (\<lambda>b (r, c). add_message r c b) b calls"

definition start_key :: "modification \<Rightarrow> int" where
  \<comment> \<open>the sort key, \<^verbatim>\<open>x.get('start_line', 0)\<close>\<close>
  "start_key x = get_or (start_line x) 0"

definition path_of :: "change \<Rightarrow> string" where
  "path_of c = get_or (change_file c) []"

definition mods_of :: "change \<Rightarrow> modification list" where
  "mods_of c = get_or (modifications c) []"

definition listed_for :: "string \<Rightarrow> change list \<Rightarrow> modification list" where
  \<comment> \<open>the modifications listed for a path across all entries of the input, in input order\<close>
  "listed_for p cs = concat (map mods_of (filter (\<lambda>c. path_of c = p) cs))"

definition first_appearances :: "'a list \<Rightarrow> 'a list" where
  \<comment> \<open>the distinct elements of a list in the order of their first appearance\<close>
  "first_appearances xs = rev (remdups (rev xs))"

definition demo_templates :: templates where
  \<comment> \<open>one-word templates, to run the functions on concrete inputs\<close>
  "demo_templates =
     \<lparr>CLAUDE_SYSTEM_PROMPT = ''system'', CLAUDE_GENERATION_PROMPT = ''generate'',
      CLAUDE_MODIFICATION_PROMPT = ''modify'', OPENAI_SYSTEM_PROMPT = ''system'',
      OPENAI_GENERATION_PROMPT = ''generate'', OPENAI_MODIFICATION_PROMPT = ''modify''\<rparr>"

definition demo_env ::
  "(string + string \<times> (string \<rightharpoonup> int)) \<Rightarrow> string \<Rightarrow> payload \<Rightarrow> env" where
  \<comment> \<open>an environment in which the provider answers every call with the given result and
      \<^verbatim>\<open>json.loads\<close> decodes the given JSON text to the given payload, and no other text\<close>
  "demo_env reply json decoded =
     \<lparr>claude_invoke = (\<lambda>msgs system_prompt model. reply),
      openai_invoke = (\<lambda>msgs system_prompt model. reply),
      json_loads = (\<lambda>s. if s = json then Inr decoded else Inl ''Expecting value''),
      json_dumps = (\<lambda>p. ''{}''),
      dump_workspace_tree = (\<lambda>t. ''{}''),
      coerce_str = (\<lambda>j. None),
      validation_error = (\<lambda>v. ''Input should be a valid string'')\<rparr>"

definition demo_request :: "string option \<Rightarrow> chat_request" where
  \<comment> \<open>a request without context, for the given model\<close>
  "demo_request m =
     \<lparr>query = ''create a button'', request_context = None, session_id = ''default'',
      model_name = m\<rparr>"

subsection \<open>Invariants of the buffer\<close>

definition primed :: "message list \<Rightarrow> conversation_buffer \<Rightarrow> bool" where
  \<comment> \<open>once the examples are injected, they are the first two messages\<close>
  "primed exs b = (examples_injected b \<longrightarrow> take 2 (messages b) = exs \<and> 2 \<le> length (messages b))"

definition user_led :: "message \<Rightarrow> message \<Rightarrow> bool \<Rightarrow> conversation_buffer \<Rightarrow> bool" where
  \<comment> \<open>behind the pair \<open>e0\<close>, \<open>e1\<close> every message that is not a user message follows a user
      message; the flag says that the last call added a user message, which is then the
      last message of the buffer (a buffer with a negative capacity keeps the pair only)\<close>
  "user_led e0 e1 p b =
     (examples_injected b \<and>
      (\<exists>conv. messages b = e0 # e1 # conv \<and> preceded_by_user False (map role conv) \<and>
         (if max_messages b < 0 then conv = []
          else (p \<longrightarrow> conv \<noteq> [] \<and> role (last conv) = ''user''))))"

definition stored_plain :: "message list \<Rightarrow> conversation_buffer \<Rightarrow> bool" where
  "stored_plain exs b = (\<forall>m \<in> set (messages b). is_plain m \<or> m \<in> set exs)"

definition pinned :: "message \<Rightarrow> message \<Rightarrow> conversation_buffer \<Rightarrow> bool" where
  \<comment> \<open>with a capacity of 3 or more, what follows the injected pair is plain text\<close>
  "pinned e0 e1 b =
     (3 \<le> max_messages b \<and>
      (examples_injected b \<longrightarrow> (\<exists>conv. messages b = e0 # e1 # conv \<and> list_all is_plain conv)))"

subsection \<open>The grouping of \<^verbatim>\<open>sort_modifications\<close>, in closed form\<close>

definition flat :: "change list \<Rightarrow> (string \<times> modification) list" where
  \<comment> \<open>the (path, modification) pairs in the order in which the two nested loops visit them\<close>
  "flat cs = concat (map (\<lambda>c. map (\<lambda>m. (path_of c, m)) (mods_of c)) cs)"

definition grouped :: "(string \<times> 'a) list \<Rightarrow> (string \<times> 'a list) list" where
  "grouped kvs =
     map (\<lambda>k. (k, map snd (filter (\<lambda>kv. fst kv = k) kvs))) (first_appearances (map fst kvs))"

definition with_modifications :: "change list \<Rightarrow> string list" where
  \<comment> \<open>the paths of the entries that list at least one modification, in input order\<close>
  "with_modifications cs = map path_of (filter (\<lambda>c. mods_of c \<noteq> []) cs)"

section \<open>Lemmas on the buffer\<close>

lemma max_messages_trim [simp]: "max_messages (trim_if_needed b) = max_messages b"
  by (simp add: trim_if_needed_def Let_def)

lemma examples_injected_trim [simp]: "examples_injected (trim_if_needed b) = examples_injected b"
  by (simp add: trim_if_needed_def Let_def)

lemma length_trim:
  assumes "3 \<le> max_messages b"
  shows "int (length (messages (trim_if_needed b))) \<le> max_messages b"
  using assms by (auto simp: trim_if_needed_def Let_def slice_from_def slice_to_def)

lemma length_apply_call:
  assumes "length exs = 2" "3 \<le> max_messages b" "int (length (messages b)) \<le> max_messages b"
  shows "int (length (messages (apply_call exs b c))) \<le> max_messages b
         \<and> max_messages (apply_call exs b c) = max_messages b"
  using assms length_trim[of "b\<lparr>messages := messages b @ [\<lparr>role = r, content = Text c\<rparr>]\<rparr>" for r c]
  by (cases c) (auto simp: inject_examples_def add_message_def clear_def)

lemma length_apply_calls:
  assumes "length exs = 2" "3 \<le> max_messages b" "int (length (messages b)) \<le> max_messages b"
  shows "int (length (messages (apply_calls exs b cs))) \<le> max_messages b
         \<and> max_messages (apply_calls exs b cs) = max_messages b"
  using assms unfolding apply_calls_def
proof (induction cs arbitrary: b)
  case Nil
  then show ?case by simp
next
  case (Cons c cs)
  from length_apply_call[OF Cons.prems, of c] Cons.prems
  show ?case using Cons.IH[of "apply_call exs b c"] by simp
qed

lemma trim_take2:
  assumes "examples_injected b" "length (messages b) \<ge> 2"
  shows "take 2 (messages (trim_if_needed b)) = take 2 (messages b)"
  using assms by (auto simp: trim_if_needed_def Let_def slice_from_def slice_to_def)

lemma trim_len2:
  assumes "examples_injected b" "length (messages b) \<ge> 2"
  shows "length (messages (trim_if_needed b)) \<ge> 2"
  using assms by (auto simp: trim_if_needed_def Let_def slice_from_def slice_to_def)

lemma primed_call:
  assumes "length exs = 2" "primed exs b"
  shows "primed exs (apply_call exs b c)"
  using assms trim_take2[of "b\<lparr>messages := messages b @ [\<lparr>role = r, content = Text s\<rparr>]\<rparr>" for r s]
     trim_len2[of "b\<lparr>messages := messages b @ [\<lparr>role = r, content = Text s\<rparr>]\<rparr>" for r s]
  by (cases c) (auto simp: primed_def inject_examples_def add_message_def clear_def)

lemma primed_calls:
  assumes "length exs = 2" "primed exs b"
  shows "primed exs (apply_calls exs b cs)"
  using assms unfolding apply_calls_def
  by (induction cs arbitrary: b) (auto intro: primed_call)

subsection \<open>Roles behind the injected pair\<close>

lemma pbu_weaken:
  "preceded_by_user p rs \<Longrightarrow> preceded_by_user q rs \<or> (rs \<noteq> [] \<and> hd rs \<noteq> ''user'')"
  by (cases rs) auto

lemma pbu_True: "preceded_by_user p rs \<Longrightarrow> preceded_by_user True rs"
  by (cases rs) auto

lemma pbu_append:
  "preceded_by_user p (xs @ ys) \<longleftrightarrow>
     preceded_by_user p xs \<and> preceded_by_user (if xs = [] then p else last xs = ''user'') ys"
  by (induction xs arbitrary: p) auto

lemma pbu_drop: "preceded_by_user p rs \<Longrightarrow> preceded_by_user True (drop k rs)"
proof (induction rs arbitrary: p k)
  case Nil
  then show ?case by simp
next
  case (Cons r rs)
  then show ?case by (cases k) (auto intro: pbu_True)
qed

lemma pbu_head:
  "preceded_by_user True rs \<Longrightarrow> rs \<noteq> [] \<Longrightarrow> hd rs = ''user'' \<Longrightarrow> preceded_by_user False rs"
  by (cases rs) auto

lemma pbu_tl:
  "preceded_by_user True rs \<Longrightarrow> rs \<noteq> [] \<Longrightarrow> hd rs \<noteq> ''user'' \<Longrightarrow> preceded_by_user False (tl rs)"
  by (cases rs) auto

lemma trim_primed:
  assumes "examples_injected b" "messages b = e0 # e1 # xs" "int (length xs) + 2 > max_messages b"
    and "slice_from (2 - max_messages b) (e0 # e1 # xs) = recent"
  shows "messages (trim_if_needed b) =
           (if recent \<noteq> [] \<and> role (hd recent) \<noteq> ''user'' then e0 # e1 # tl recent
            else e0 # e1 # recent)"
  using assms
  by (cases recent) (auto simp: trim_if_needed_def Let_def slice_to_def slice_from_def[of 3])

lemma recent_suffix:
  assumes "3 \<le> n" "int (length xs) + 2 > n"
  shows "slice_from (2 - n) (e0 # e1 # xs) = drop (length xs + 2 - nat n) xs"
  using assms by (simp add: slice_from_def drop_Cons' nat_diff_distrib)

lemma user_led_add:
  assumes inv: "user_led e0 e1 p b" and e0: "role e0 = ''user''" and r: "r = ''user'' \<or> p"
  shows "user_led e0 e1 (r = ''user'') (add_message r c b)"
proof -
  define m where "m = \<lparr>role = r, content = Text c\<rparr>"
  from inv obtain conv where inj: "examples_injected b"
    and msgs: "messages b = e0 # e1 # conv"
    and w: "preceded_by_user False (map role conv)"
    and l: "if max_messages b < 0 then conv = [] else (p \<longrightarrow> conv \<noteq> [] \<and> role (last conv) = ''user'')"
    unfolding user_led_def by blast
  define xs where "xs = conv @ [m]"
  define n where "n = max_messages b"
  define b' where "b' = b\<lparr>messages := e0 # e1 # xs\<rparr>"
  have rm: "role m = r" by (simp add: m_def)
  have wx: "0 \<le> n \<Longrightarrow> preceded_by_user False (map role xs)"
    using w l r by (auto simp: xs_def pbu_append rm n_def last_map)
  have am: "add_message r c b = trim_if_needed b'"
    by (simp add: add_message_def msgs xs_def m_def b'_def)
  have b': "examples_injected b'" "messages b' = e0 # e1 # xs" "max_messages b' = n"
    using inj by (simp_all add: b'_def n_def)
  have xne: "xs \<noteq> []" "last xs = m" by (simp_all add: xs_def)
  have fin: "user_led e0 e1 (r = ''user'') (add_message r c b)"
    if "messages (trim_if_needed b') = e0 # e1 # ys" "preceded_by_user False (map role ys)"
       "if n < 0 then ys = [] else (r = ''user'' \<longrightarrow> ys \<noteq> [] \<and> last ys = m)" for ys
    using that b' by (auto simp: user_led_def am rm split: if_splits)
  note tp = trim_primed[OF b'(1,2), unfolded b'(3)]
  consider (a) "3 \<le> n" "int (length xs) + 2 \<le> n" | (b) "3 \<le> n" "int (length xs) + 2 > n"
    | (c) "n = 2" | (d) "n = 1" | (e) "n = 0" | (f) "n < 0" by linarith
  then show ?thesis
  proof cases
    case a
    then have "messages (trim_if_needed b') = e0 # e1 # xs"
      using b' by (simp add: trim_if_needed_def)
    then show ?thesis using fin[of xs] wx a xne by simp
  next
    case b
    define k where "k = length xs + 2 - nat n"
    have k: "0 < k" "k < length xs" using b by (auto simp: k_def)
    have rec: "slice_from (2 - n) (e0 # e1 # xs) = drop k xs"
      using b k by (simp add: slice_from_def k_def drop_Cons' nat_diff_distrib)
    have wz: "preceded_by_user True (map role (drop k xs))"
      using wx b pbu_drop[of False "map role xs" k] by (simp add: drop_map)
    have zne: "drop k xs \<noteq> []" "last (drop k xs) = m" using k xne by simp_all
    show ?thesis
    proof (cases "role (hd (drop k xs)) = ''user''")
      case True
      have "preceded_by_user False (map role (drop k xs))"
        using pbu_head[OF wz] zne True by (simp add: hd_map)
      then show ?thesis using fin[of "drop k xs"] tp[OF b(2) rec] True zne b by simp
    next
      case False
      have w': "preceded_by_user False (map role (tl (drop k xs)))"
        using pbu_tl[OF wz] zne False by (simp add: hd_map map_tl)
      have "r = ''user'' \<longrightarrow> tl (drop k xs) \<noteq> [] \<and> last (tl (drop k xs)) = m"
        using zne False rm by (cases "drop k xs") (auto split: if_splits)
      then show ?thesis using fin[of "tl (drop k xs)"] tp[OF b(2) rec] False zne b w' by simp
    qed
  next
    case c
    have rec: "slice_from (2 - n) (e0 # e1 # xs) = e0 # e1 # xs"
      using c by (simp add: slice_from_def)
    have "preceded_by_user False (map role (e0 # e1 # xs))"
      using wx c e0 pbu_weaken[of False "map role xs" "role e1 = ''user''"] xne
      by (auto simp: hd_map) (cases xs; simp)+
    then show ?thesis using fin[of "e0 # e1 # xs"] tp[OF _ rec] c e0 xne by simp
  next
    case d
    have rec: "slice_from (2 - n) (e0 # e1 # xs) = e1 # xs"
      using d by (simp add: slice_from_def)
    have "role e1 = ''user'' \<Longrightarrow> preceded_by_user False (map role (e1 # xs))"
      using wx d pbu_True[of False "map role xs"] by simp
    then show ?thesis using fin[of "e1 # xs"] fin[of xs] tp[OF _ rec] d wx xne
      by (cases "role e1 = ''user''") simp_all
  next
    case e
    have rec: "slice_from (2 - n) (e0 # e1 # xs) = xs"
      using e by (simp add: slice_from_def)
    have "role (hd xs) = ''user''" using wx e xne by (cases xs) auto
    then show ?thesis using fin[of xs] tp[OF _ rec] e wx xne by simp
  next
    case f
    then have "conv = []" using l by (simp add: n_def)
    then have rec: "slice_from (2 - n) (e0 # e1 # xs) = []"
      using f by (simp add: slice_from_def xs_def drop_Cons')
    show ?thesis using fin[of "[]"] tp[OF _ rec] f xne by simp
  qed
qed

lemma user_led_add_messages:
  assumes "user_led e0 e1 p b" "role e0 = ''user''" "preceded_by_user p (map fst calls)"
  shows "\<exists>q. user_led e0 e1 q (add_messages b calls)"
  using assms unfolding add_messages_def
proof (induction calls arbitrary: b p)
  case Nil then show ?case by auto
next
  case (Cons rc calls)
  obtain r c where rc: "rc = (r, c)" by (cases rc)
  from Cons.prems rc have "user_led e0 e1 (r = ''user'') (add_message r c b)"
    by (intro user_led_add) auto
  from Cons.IH[OF this Cons.prems(2)] Cons.prems(3) rc show ?case by simp
qed

lemma user_led_third:
  assumes "user_led e0 e1 p b" "length (messages b) > 2"
  shows "role (messages b ! 2) = ''user''"
proof -
  from assms obtain conv where "messages b = e0 # e1 # conv" "preceded_by_user False (map role conv)"
    unfolding user_led_def by blast
  with assms(2) show ?thesis by (cases conv) auto
qed

subsection \<open>Plain text behind the injected pair\<close>

lemma set_slice_from: "set (slice_from i xs) \<subseteq> set xs"
  by (auto simp: slice_from_def dest: in_set_dropD)

lemma set_slice_to: "set (slice_to i xs) \<subseteq> set xs"
  by (auto simp: slice_to_def dest: in_set_takeD)

lemma set_trim: "set (messages (trim_if_needed b)) \<subseteq> set (messages b)"
  using set_slice_from[of _ "messages b"] set_slice_to[of _ "messages b"]
        set_slice_from[of 3 "slice_to 2 (messages b) @ slice_from (2 - max_messages b) (messages b)"]
        set_slice_to[of 2 "slice_to 2 (messages b) @ slice_from (2 - max_messages b) (messages b)"]
        set_slice_from[of 3 "slice_from (- max_messages b) (messages b)"]
        set_slice_to[of 2 "slice_from (- max_messages b) (messages b)"]
  by (auto simp: trim_if_needed_def Let_def) blast+

lemma stored_plain_call:
  assumes "stored_plain exs b"
  shows "stored_plain exs (apply_call exs b c)"
proof (cases c)
  case InjectExamples
  then show ?thesis using assms by (auto simp: stored_plain_def inject_examples_def)
next
  case (AddMessage r s)
  have "set (messages (add_message r s b)) \<subseteq> insert \<lparr>role = r, content = Text s\<rparr> (set (messages b))"
    using set_trim[of "b\<lparr>messages := messages b @ [\<lparr>role = r, content = Text s\<rparr>]\<rparr>"]
    by (auto simp: add_message_def)
  then show ?thesis using assms AddMessage
    by (auto simp: stored_plain_def is_plain_def)
next
  case Clear
  then show ?thesis by (simp add: stored_plain_def clear_def)
qed

lemma stored_plain_calls:
  assumes "stored_plain exs b"
  shows "stored_plain exs (apply_calls exs b cs)"
  using assms unfolding apply_calls_def
  by (induction cs arbitrary: b) (auto intro: stored_plain_call)

lemma pinned_add:
  assumes "pinned e0 e1 b"
  shows "pinned e0 e1 (add_message r c b)"
proof (cases "examples_injected b")
  case False
  then show ?thesis using assms by (simp add: pinned_def add_message_def)
next
  case True
  then obtain conv where msgs: "messages b = e0 # e1 # conv" and pl: "list_all is_plain conv"
    and n: "3 \<le> max_messages b"
    using assms unfolding pinned_def by blast
  define xs where "xs = conv @ [\<lparr>role = r, content = Text c\<rparr>]"
  define b' where "b' = b\<lparr>messages := e0 # e1 # xs\<rparr>"
  have b': "examples_injected b'" "messages b' = e0 # e1 # xs" "max_messages b' = max_messages b"
    using True by (simp_all add: b'_def)
  have am: "add_message r c b = trim_if_needed b'"
    by (simp add: add_message_def msgs xs_def b'_def)
  have px: "list_all is_plain xs" using pl by (simp add: xs_def is_plain_def)
  have fin: "pinned e0 e1 (add_message r c b)"
    if "messages (trim_if_needed b') = e0 # e1 # ys" "list_all is_plain ys" for ys
    using that b' n by (simp add: pinned_def am)
  show ?thesis
  proof (cases "int (length xs) + 2 > max_messages b")
    case False
    then have "messages (trim_if_needed b') = e0 # e1 # xs"
      using b' by (simp add: trim_if_needed_def)
    then show ?thesis using fin px by simp
  next
    case gt: True
    define k where "k = length xs + 2 - nat (max_messages b)"
    have rec: "slice_from (2 - max_messages b') (e0 # e1 # xs) = drop k xs"
      using recent_suffix[OF n gt] by (simp add: k_def b')
    have pd: "list_all is_plain (drop k xs)" "list_all is_plain (tl (drop k xs))"
    proof -
      have "tl (drop k xs) = drop (Suc k) xs" by (simp add: drop_Suc tl_drop)
      then show "list_all is_plain (drop k xs)" "list_all is_plain (tl (drop k xs))"
        using px by (auto simp: list_all_iff dest: in_set_dropD)
    qed
    show ?thesis
      using trim_primed[OF b'(1,2) _ rec] gt b'(3) fin[of "drop k xs"] fin[of "tl (drop k xs)"] pd
      by (simp split: if_splits)
  qed
qed

lemma pinned_call:
  assumes "pinned e0 e1 b"
  shows "pinned e0 e1 (apply_call [e0, e1] b c)"
  using assms pinned_add[OF assms]
  by (cases c) (auto simp: pinned_def inject_examples_def clear_def)

lemma pinned_calls:
  assumes "pinned e0 e1 b"
  shows "pinned e0 e1 (apply_calls [e0, e1] b cs)"
  using assms unfolding apply_calls_def
  by (induction cs arbitrary: b) (auto intro: pinned_call)

lemma format_cacheable_snoc: "format_cacheable (xs @ [m]) = xs @ [cache_wrap m]"
  by (induction xs rule: format_cacheable.induct) auto

lemma export_pinned:
  assumes "examples_injected b" "messages b = e0 # e1 # conv" "length conv > 3"
  shows "claude_get_messages_for_api b =
           (messages b)[length (messages b) - 4 := cache_wrap (messages b ! (length (messages b) - 4))]"
proof -
  define k where "k = length conv - 4"
  have kl: "k < length conv" "length conv - 3 = Suc k" using assms(3) by (simp_all add: k_def)
  have t: "take (Suc k) conv = take k conv @ [conv ! k]"
    using kl by (simp add: take_Suc_conv_app_nth)
  have "claude_get_messages_for_api b =
          [e0, e1] @ format_cacheable (take (length conv - 3) conv) @ drop (length conv - 3) conv"
    using assms by (simp add: claude_get_messages_for_api_def slice_to_def slice_from_def Let_def)
  also have "\<dots> = e0 # e1 # (take k conv @ cache_wrap (conv ! k) # drop (Suc k) conv)"
    by (simp add: kl t format_cacheable_snoc)
  also have "\<dots> = e0 # e1 # conv[k := cache_wrap (conv ! k)]"
    using kl by (simp add: upd_conv_take_nth_drop)
  also have "\<dots> = (messages b)[length (messages b) - 4 := cache_wrap (messages b ! (length (messages b) - 4))]"
  proof -
    have "length (messages b) - 4 = Suc (Suc k)" using assms(2,3) by (simp add: k_def)
    then show ?thesis by (simp add: assms(2))
  qed
  finally show ?thesis .
qed

section \<open>Lemmas on \<^verbatim>\<open>sort_modifications\<close>\<close>


lemma sorted_reverse_mset: "mset (sorted_reverse key xs) = mset xs"
  by (simp add: sorted_reverse_def)

lemma first_appearances_snoc:
  "first_appearances (xs @ [x]) = (if x \<in> set xs then first_appearances xs else first_appearances xs @ [x])"
  by (simp add: first_appearances_def)

lemma set_first_appearances [simp]: "set (first_appearances xs) = set xs"
  by (simp add: first_appearances_def)

lemma distinct_first_appearances [simp]: "distinct (first_appearances xs)"
  by (simp add: first_appearances_def)

lemma append_to_map:
  assumes "distinct ks"
  shows "append_to k v (map (\<lambda>k'. (k', f k')) ks) =
           (if k \<in> set ks then map (\<lambda>k'. (k', if k' = k then f k' @ [v] else f k')) ks
            else map (\<lambda>k'. (k', f k')) ks @ [(k, [v])])"
  using assms by (induction ks) auto

lemma grouped_snoc: "grouped (kvs @ [(k, v)]) = append_to k v (grouped kvs)"
  unfolding grouped_def
  by (subst append_to_map) (auto simp: first_appearances_snoc filter_empty_conv)

lemma foldl_append_to: "foldl (\<lambda>d (k, v). append_to k v d) [] kvs = grouped kvs"
proof (induction kvs rule: rev_induct)
  case Nil then show ?case by (simp add: grouped_def first_appearances_def)
next
  case (snoc kv kvs)
  then show ?case by (cases kv) (simp add: grouped_snoc)
qed

lemma examples_length [simp]: "length (CLAUDE_EXAMPLES T) = 2" "length (OPENAI_EXAMPLES T) = 2"
  by (simp_all add: CLAUDE_EXAMPLES_def OPENAI_EXAMPLES_def)

lemma claude_examples_roles: "\<exists>e0 e1. CLAUDE_EXAMPLES T = [e0, e1] \<and> role e0 = ''user'' \<and> \<not> is_plain e0 \<and> has_cache_marker e0 \<and> is_plain e1 \<and> \<not> has_cache_marker e1"
  by (simp add: CLAUDE_EXAMPLES_def is_plain_def has_cache_marker_def)

lemma add_messages_calls: "add_messages b calls = apply_calls exs b (map (\<lambda>(r, c). AddMessage r c) calls)"
  unfolding add_messages_def apply_calls_def
  by (induction calls arbitrary: b) auto

lemma has_cache_marker_wrap [simp]: "has_cache_marker (cache_wrap m)"
  by (simp add: has_cache_marker_def cache_wrap_def)

lemma plain_no_marker: "is_plain m \<Longrightarrow> \<not> has_cache_marker m"
  by (auto simp: is_plain_def has_cache_marker_def split: content.splits)

text \<open>The definitions that evaluate the buffer on a concrete input.\<close>

lemmas buffer_eval = apply_calls_def claude_inject_examples_def inject_examples_def ConversationBuffer_def
      add_message_def trim_if_needed_def CLAUDE_EXAMPLES_def slice_to_def slice_from_def clear_def

subsection \<open>The closed form of \<^verbatim>\<open>sort_modifications\<close>\<close>

lemma group_change_flat:
  "group_change d c = foldl (\<lambda>d (k, v). append_to k v d) d (map (\<lambda>m. (path_of c, m)) (mods_of c))"
  by (simp add: group_change_def path_of_def mods_of_def foldl_map)

lemma foldl_group_change:
  "foldl group_change d cs = foldl (\<lambda>d (k, v). append_to k v d) d (flat cs)"
  by (induction cs arbitrary: d) (simp_all add: flat_def group_change_flat)

lemma file_modifications_grouped: "foldl group_change [] cs = grouped (flat cs)"
  by (simp add: foldl_group_change foldl_append_to)

lemma first_appearances_replicate:
  "first_appearances (xs @ replicate n x) = (if n = 0 then first_appearances xs else first_appearances (xs @ [x]))"
proof (induction n)
  case 0
  then show ?case by simp
next
  case (Suc n)
  have "xs @ replicate (Suc n) x = (xs @ replicate n x) @ [x]"
    by (simp add: replicate_append_same)
  then show ?case using Suc
    by (simp only: first_appearances_snoc) (auto simp: first_appearances_snoc)
qed

lemma flat_snoc: "flat (cs @ [c]) = flat cs @ map (\<lambda>m. (path_of c, m)) (mods_of c)"
  by (simp add: flat_def)

lemma keys_flat: "first_appearances (map fst (flat cs)) = first_appearances (with_modifications cs)"
proof (induction cs rule: rev_induct)
  case Nil
  then show ?case by (simp add: flat_def with_modifications_def)
next
  case (snoc c cs)
  have m: "map fst (flat (cs @ [c])) = map fst (flat cs) @ replicate (length (mods_of c)) (path_of c)"
    by (simp add: flat_snoc map_replicate_const comp_def)
  have s: "set (map fst (flat cs)) = set (with_modifications cs)"
    using snoc by (metis set_first_appearances)
  have w: "with_modifications (cs @ [c]) =
             (if mods_of c = [] then with_modifications cs else with_modifications cs @ [path_of c])"
    by (simp add: with_modifications_def)
  show ?case
    unfolding m w first_appearances_replicate
    using snoc s by (simp add: first_appearances_snoc del: set_map)
qed

lemma values_flat: "map snd (filter (\<lambda>kv. fst kv = p) (flat cs)) = listed_for p cs"
  by (induction cs) (auto simp: flat_def listed_for_def filter_map comp_def)

lemma sort_modifications_closed_form:
  "sort_modifications cs =
     map (\<lambda>p. \<lparr>change_file = Some p, change_content = None,
                modifications = Some (sorted_reverse start_key (listed_for p cs))\<rparr>)
         (first_appearances (with_modifications cs))"
proof -
  have sk: "(\<lambda>x. get_or (start_line x) 0) = start_key" by (simp add: start_key_def fun_eq_iff)
  show ?thesis
    by (simp add: sort_modifications_def file_modifications_grouped grouped_def keys_flat values_flat sk comp_def)
qed


lemmas sort_eval = sort_modifications_def group_change_def get_or_def sorted_reverse_def

section \<open>Lemmas on the request handler\<close>

lemma type_remove_old_content [simp]: "type (remove_old_content p) = type p"
  by (simp add: remove_old_content_def split: option.splits)




lemma usage_parse_response [simp]:
  "usage (fst (parse_response E request model prov tokens response gen)) = Some tokens"
  by (simp add: parse_response_def fallback_response_def Let_def split: sum.splits)

lemma process_chat_request_reply:
  assumes "call_api E (begin_turn E T request st) = Inr (response, u)"
  shows "fst (process_chat_request E T request st) =
           Inr (fst (parse_response E request (turn_model (begin_turn E T request st))
                   (turn_provider (begin_turn E T request st))
                   (prepare_token_usage (turn_provider (begin_turn E T request st)) u) response
                   (turn_generated_code (begin_turn E T request st))))"
  using assms by (simp add: process_chat_request_def Let_def split: prod.splits)

lemma turn_provider_begin [simp]:
  "turn_provider (begin_turn E T request st) = determine_provider (request_model_name request)"
  by (simp add: begin_turn_def Let_def)

lemma last_add_user:
  assumes "3 \<le> max_messages b"
  shows "messages (add_message ''user'' c b) \<noteq> []
         \<and> last (messages (add_message ''user'' c b)) = \<lparr>role = ''user'', content = Text c\<rparr>"
  using assms
  by (auto simp: add_message_def trim_if_needed_def Let_def slice_from_def slice_to_def nth_append
      split: if_splits)

text \<open>The definitions that evaluate the handler on a concrete input.\<close>

lemmas handler_eval = process_chat_request_def call_api_def claude_call_api_def openai_call_api_def
  begin_turn_def demo_env_def demo_request_def request_model_name_def determine_provider_def
  is_claude_model_def is_openai_model_def parse_response_def validate_type_def
  fallback_response_def extract_json_def rfind_char_def
  slice_def remove_old_content_def get_or_def prepare_token_usage_def Let_def

section \<open>The claims\<close>

subsection \<open>C3: the capacity of the buffer\<close>

text \<open>
  As stated, for every capacity, the claim fails: \<^verbatim>\<open>inject_examples\<close> stores the two
  examples whatever the capacity is, so a buffer of capacity 1 holds two messages after
  it. (The two examples are never evicted either, so no trim could bring it back to 1.)
\<close>

theorem capacity_counterexample:
  "length (messages (apply_calls (CLAUDE_EXAMPLES demo_templates) (ConversationBuffer 1)
      [InjectExamples])) = 2
   \<and> max_messages (apply_calls (CLAUDE_EXAMPLES demo_templates) (ConversationBuffer 1)
      [InjectExamples]) = 1"
  by (simp add: apply_calls_def ConversationBuffer_def inject_examples_def CLAUDE_EXAMPLES_def)

text \<open>
  C3, amended: for a buffer of either class that is created with a capacity
  \<^verbatim>\<open>max_messages\<close> of 3 or more (the default is 20), after every sequence of calls of
  \<^verbatim>\<open>inject_examples\<close>, \<^verbatim>\<open>add_message\<close> and \<^verbatim>\<open>clear\<close> the length of the stored message list
  is at most \<^verbatim>\<open>max_messages\<close>.
\<close>

theorem capacity_invariant:
  assumes "3 \<le> n" and "exs = CLAUDE_EXAMPLES T \<or> exs = OPENAI_EXAMPLES T"
  shows "int (length (messages (apply_calls exs (ConversationBuffer n) cs))) \<le> n"
proof -
  have "length exs = 2" using assms(2) by auto
  from length_apply_calls[OF this, of "ConversationBuffer n" cs] assms(1)
  show ?thesis by (simp add: ConversationBuffer_def)
qed

theorem capacity_invariant_witness:
  "(3::int) \<le> 3
   \<and> int (length (messages (apply_calls (CLAUDE_EXAMPLES demo_templates) (ConversationBuffer 3)
        [InjectExamples, AddMessage ''user'' ''q1'', AddMessage ''assistant'' ''a1'',
         AddMessage ''user'' ''q2'']))) \<le> 3"
  using capacity_invariant[of 3 "CLAUDE_EXAMPLES demo_templates" demo_templates
      "[InjectExamples, AddMessage ''user'' ''q1'', AddMessage ''assistant'' ''a1'',
         AddMessage ''user'' ''q2'']"]
  by simp

subsection \<open>C9: the role check after a trim without examples\<close>

text \<open>
  C9: when \<^verbatim>\<open>add_message\<close> triggers a trim on a buffer whose examples were never injected,
  and the message at index 2 of the retained last \<^verbatim>\<open>max_messages\<close> entries does not have
  the role \<^verbatim>\<open>user\<close>, then that single message is dropped as well: the buffer ends the call
  with \<^verbatim>\<open>max_messages - 1\<close> messages and no examples.
\<close>

theorem trim_without_examples:
  assumes "\<not> examples_injected b"
    and "max_messages b < int (length (messages b)) + 1"
    and "0 < max_messages b"
    and "kept = slice_from (- max_messages b) (messages b @ [\<lparr>role = r, content = Text c\<rparr>])"
    and "2 < length kept" and "role (kept ! 2) \<noteq> ''user''"
  shows "messages (add_message r c b) = slice_to 2 kept @ slice_from 3 kept
       \<and> \<not> examples_injected (add_message r c b)
       \<and> int (length (messages (add_message r c b))) = max_messages b - 1"
  using assms by (auto simp: add_message_def trim_if_needed_def Let_def slice_from_def slice_to_def)

theorem trim_without_examples_witness:
  "messages (add_message ''assistant'' ''a2''
      \<lparr>messages = [\<lparr>role = ''user'', content = Text ''q1''\<rparr>,
                   \<lparr>role = ''assistant'', content = Text ''a1''\<rparr>,
                   \<lparr>role = ''user'', content = Text ''q2''\<rparr>],
       max_messages = 3, examples_injected = False\<rparr>)
   = [\<lparr>role = ''assistant'', content = Text ''a1''\<rparr>, \<lparr>role = ''user'', content = Text ''q2''\<rparr>]"
  using trim_without_examples[of
      "\<lparr>messages = [\<lparr>role = ''user'', content = Text ''q1''\<rparr>,
                   \<lparr>role = ''assistant'', content = Text ''a1''\<rparr>,
                   \<lparr>role = ''user'', content = Text ''q2''\<rparr>],
       max_messages = 3, examples_injected = False\<rparr>"
      "[\<lparr>role = ''assistant'', content = Text ''a1''\<rparr>, \<lparr>role = ''user'', content = Text ''q2''\<rparr>,
        \<lparr>role = ''assistant'', content = Text ''a2''\<rparr>]" "''assistant''" "''a2''"]
  by (simp add: slice_from_def slice_to_def)

subsection \<open>C2: the priming pair and the role of the third message\<close>

text \<open>
  As stated, for any sequence of \<^verbatim>\<open>add_message\<close> calls, the claim fails: an assistant
  message added to a freshly primed buffer is stored at index 2, and nothing is trimmed.
\<close>

theorem alternation_counterexample:
  "examples_injected (add_messages (claude_inject_examples demo_templates (ConversationBuffer 20)) [(''assistant'', ''hi'')])
   \<and> length (messages (add_messages (claude_inject_examples demo_templates (ConversationBuffer 20)) [(''assistant'', ''hi'')])) = 3
   \<and> role (messages (add_messages (claude_inject_examples demo_templates (ConversationBuffer 20)) [(''assistant'', ''hi'')]) ! 2) = ''assistant''"
  by (simp add: add_messages_def claude_inject_examples_def inject_examples_def ConversationBuffer_def
      add_message_def trim_if_needed_def CLAUDE_EXAMPLES_def)

text \<open>
  C2, amended: for any sequence of \<^verbatim>\<open>add_message\<close> calls on a buffer primed by
  \<^verbatim>\<open>inject_examples\<close>, of any capacity, after every call \<^verbatim>\<open>examples_injected\<close> is true and
  \<^verbatim>\<open>messages[0]\<close> and \<^verbatim>\<open>messages[1]\<close> are exactly the priming pair; and if no call adds a
  message of a role other than \<^verbatim>\<open>user\<close> first or directly after another such message (as
  in the request handler, which adds the user turn and then the assistant turn), then
  \<^verbatim>\<open>messages[2]\<close>, if present, has the role \<^verbatim>\<open>user\<close>. The sequence is arbitrary, so the
  statement holds after every call of it.
\<close>

theorem alternation_invariant:
  fixes T n calls
  defines "b \<equiv> add_messages (claude_inject_examples T (ConversationBuffer n)) calls"
  shows "examples_injected b \<and> take 2 (messages b) = CLAUDE_EXAMPLES T
         \<and> (preceded_by_user False (map fst calls) \<and> 2 < length (messages b)
              \<longrightarrow> role (messages b ! 2) = ''user'')"
proof -
  obtain e0 e1 where ex: "CLAUDE_EXAMPLES T = [e0, e1]" "role e0 = ''user''"
    using claude_examples_roles by blast
  define b0 where "b0 = claude_inject_examples T (ConversationBuffer n)"
  have b0: "examples_injected b0" "messages b0 = [e0, e1]" "max_messages b0 = n"
    by (simp_all add: b0_def claude_inject_examples_def inject_examples_def ConversationBuffer_def ex)
  have p0: "primed (CLAUDE_EXAMPLES T) b0" using b0 by (simp add: primed_def ex)
  have inj: "examples_injected b"
    unfolding b_def b0_def[symmetric] add_messages_def using b0(1)
    by (induction calls arbitrary: b0) (auto simp: add_message_def)
  have "primed (CLAUDE_EXAMPLES T) b"
    unfolding b_def b0_def[symmetric] add_messages_calls[of _ _ "CLAUDE_EXAMPLES T"]
    by (rule primed_calls[OF _ p0]) simp
  then have pair: "take 2 (messages b) = CLAUDE_EXAMPLES T" using inj by (simp add: primed_def)
  have u0: "user_led e0 e1 False b0" using b0 by (simp add: user_led_def)
  have "role (messages b ! 2) = ''user''"
    if "preceded_by_user False (map fst calls)" "2 < length (messages b)"
  proof -
    from user_led_add_messages[OF u0 ex(2) that(1)]
    obtain q where "user_led e0 e1 q b" unfolding b_def b0_def by blast
    from user_led_third[OF this that(2)] show ?thesis .
  qed
  with inj pair show ?thesis by blast
qed

theorem alternation_invariant_witness:
  "preceded_by_user False (map fst [(''user'', ''q1''), (''assistant'', ''a1''), (''user'', ''q2'')])
   \<and> 2 < length (messages (add_messages (claude_inject_examples demo_templates (ConversationBuffer 4))
          [(''user'', ''q1''), (''assistant'', ''a1''), (''user'', ''q2'')]))
   \<and> role (messages (add_messages (claude_inject_examples demo_templates (ConversationBuffer 4))
          [(''user'', ''q1''), (''assistant'', ''a1''), (''user'', ''q2'')]) ! 2) = ''user''"
proof -
  have l: "2 < length (messages (add_messages (claude_inject_examples demo_templates (ConversationBuffer 4))
          [(''user'', ''q1''), (''assistant'', ''a1''), (''user'', ''q2'')]))"
    by (simp add: add_messages_def claude_inject_examples_def inject_examples_def ConversationBuffer_def
      add_message_def trim_if_needed_def CLAUDE_EXAMPLES_def slice_to_def slice_from_def)
  have p: "preceded_by_user False (map fst [(''user'', ''q1''), (''assistant'', ''a1''), (''user'', ''q2'')])"
    by simp
  from alternation_invariant[of demo_templates 4 "[(''user'', ''q1''), (''assistant'', ''a1''), (''user'', ''q2'')]"] l p
  show ?thesis by blast
qed

subsection \<open>C8: what the buffer stores\<close>

text \<open>
  As stated, including the messages placed by \<^verbatim>\<open>inject_examples\<close>, the claim fails: the
  first message of \<^verbatim>\<open>CLAUDE_EXAMPLES\<close> is stored as it is written, a content block with its
  \<^verbatim>\<open>cache_control\<close>.
\<close>

theorem plain_storage_counterexample:
  "content (messages (claude_inject_examples demo_templates (ConversationBuffer 20)) ! 0)
     = Blocks [ContentBlock ''text''
                 (Text (CLAUDE_GENERATION_PROMPT demo_templates @ nl @ nl @ ''---'' @ nl @ nl
                          @ CLAUDE_MODIFICATION_PROMPT demo_templates))
                 (Some (CacheControl ''ephemeral''))]"
  by (simp add: buffer_eval)

text \<open>
  C8, amended: after every sequence of calls on a \<^verbatim>\<open>ClaudeConversationBuffer\<close>, every
  stored entry has plain text content, except the priming user message, which
  \<^verbatim>\<open>inject_examples\<close> stores in its content-block form with the cache hint.
\<close>

theorem plain_storage:
  "\<forall>m \<in> set (messages (apply_calls (CLAUDE_EXAMPLES T) (ConversationBuffer n) cs)).
      is_plain m \<or> m = CLAUDE_EXAMPLES T ! 0"
proof -
  obtain e0 e1 where ex: "CLAUDE_EXAMPLES T = [e0, e1]" "is_plain e1"
    using claude_examples_roles by blast
  have "stored_plain (CLAUDE_EXAMPLES T) (ConversationBuffer n)"
    by (simp add: stored_plain_def ConversationBuffer_def)
  from stored_plain_calls[OF this, of cs] show ?thesis
    using ex by (auto simp: stored_plain_def)
qed

theorem plain_storage_witness:
  "\<lparr>role = ''user'', content = Text ''q1''\<rparr>
     \<in> set (messages (apply_calls (CLAUDE_EXAMPLES demo_templates) (ConversationBuffer 20)
                [InjectExamples, AddMessage ''user'' ''q1'']))
   \<and> is_plain \<lparr>role = ''user'', content = Text ''q1''\<rparr>"
  using plain_storage[of demo_templates 20 "[InjectExamples, AddMessage ''user'' ''q1'']"]
  by (simp add: buffer_eval is_plain_def)

subsection \<open>C4: the cache boundary of the exported sequence\<close>

text \<open>
  As stated, with exactly one marked message, the claim fails: the exported sequence
  begins with the priming pair unchanged, whose user message carries a marker of its own,
  so that two messages are marked.
\<close>

theorem cache_boundary_counterexample:
  "length (filter has_cache_marker (claude_get_messages_for_api
      (apply_calls (CLAUDE_EXAMPLES demo_templates) (ConversationBuffer 20)
         [InjectExamples, AddMessage ''user'' ''q1'', AddMessage ''assistant'' ''a1'',
          AddMessage ''user'' ''q2'', AddMessage ''assistant'' ''a2'']))) = 2"
  by (simp add: buffer_eval claude_get_messages_for_api_def has_cache_marker_def cache_wrap_def)

text \<open>
  C4, amended: for a \<^verbatim>\<open>ClaudeConversationBuffer\<close> of capacity 3 or more, built by calls of
  its methods, with examples injected and more than 5 stored messages, the sequence
  returned by \<^verbatim>\<open>get_messages_for_api\<close> is the stored list with the 4th-from-last message
  wrapped in a \<^verbatim>\<open>cache_control\<close> block, and exactly two of its messages carry a marker: the
  priming user message at index 0 and that 4th-from-last message, the last one of the
  older prefix before the recent suffix of size 3.
\<close>

theorem cache_boundary:
  assumes "3 \<le> n" and "b = apply_calls (CLAUDE_EXAMPLES T) (ConversationBuffer n) cs"
    and "examples_injected b" and "5 < length (messages b)"
    and "out = claude_get_messages_for_api b"
  shows "out = (messages b)[length (messages b) - 4 := cache_wrap (messages b ! (length (messages b) - 4))]
         \<and> {i. i < length out \<and> has_cache_marker (out ! i)} = {0, length (messages b) - 4}"
proof -
  obtain e0 e1 where ex: "CLAUDE_EXAMPLES T = [e0, e1]" "has_cache_marker e0" "\<not> has_cache_marker e1"
    using claude_examples_roles by blast
  have "pinned e0 e1 (ConversationBuffer n)"
    using assms(1) by (simp add: pinned_def ConversationBuffer_def)
  from pinned_calls[OF this, of cs] assms(2,3) ex(1)
  obtain conv where conv: "messages b = e0 # e1 # conv" "list_all is_plain conv"
    by (auto simp: pinned_def)
  define k where "k = length (messages b) - 4"
  have lc: "3 < length conv" using assms(4) conv(1) by simp
  have out: "out = (messages b)[k := cache_wrap (messages b ! k)]"
    unfolding assms(5) k_def by (rule export_pinned[OF assms(3) conv(1) lc])
  have k: "k = Suc (Suc (length conv - 4))" "k < length (messages b)" "length conv - 4 < length conv"
    using lc conv(1) by (simp_all add: k_def)
  have "length out = length (messages b)" by (simp add: out)
  then have lo: "length out = Suc (Suc (length conv))" by (simp add: conv(1))
  have "has_cache_marker (out ! i) \<longleftrightarrow> i = 0 \<or> i = k" if "i < length out" for i
  proof (cases "i = k")
    case True
    then show ?thesis using k(2) by (simp add: out)
  next
    case False
    then have oi: "out ! i = messages b ! i" by (simp add: out)
    show ?thesis
    proof (cases i)
      case 0
      then show ?thesis using oi ex(2) conv(1) by simp
    next
      case (Suc j)
      show ?thesis
      proof (cases j)
        case 0
        then show ?thesis using oi ex(3) conv(1) Suc False k(1) by simp
      next
        case (Suc l)
        then have "l < length conv" using that \<open>i = Suc j\<close> by (simp add: lo)
        then have "is_plain (conv ! l)" using conv(2) by (simp add: list_all_length)
        then show ?thesis using oi conv(1) \<open>i = Suc j\<close> Suc False plain_no_marker by simp
      qed
    qed
  qed
  moreover have "0 < length out" "k < length out" using k(2) lo by (simp_all add: out)
  ultimately have "{i. i < length out \<and> has_cache_marker (out ! i)} = {0, k}" by auto
  with out show ?thesis by (simp add: k_def)
qed

theorem cache_boundary_witness:
  "examples_injected (apply_calls (CLAUDE_EXAMPLES demo_templates) (ConversationBuffer 20)
         [InjectExamples, AddMessage ''user'' ''q1'', AddMessage ''assistant'' ''a1'',
          AddMessage ''user'' ''q2'', AddMessage ''assistant'' ''a2''])
   \<and> length (messages (apply_calls (CLAUDE_EXAMPLES demo_templates) (ConversationBuffer 20)
         [InjectExamples, AddMessage ''user'' ''q1'', AddMessage ''assistant'' ''a1'',
          AddMessage ''user'' ''q2'', AddMessage ''assistant'' ''a2''])) = 6
   \<and> {i. i < length (claude_get_messages_for_api
                (apply_calls (CLAUDE_EXAMPLES demo_templates) (ConversationBuffer 20)
                  [InjectExamples, AddMessage ''user'' ''q1'', AddMessage ''assistant'' ''a1'',
                   AddMessage ''user'' ''q2'', AddMessage ''assistant'' ''a2'']))
          \<and> has_cache_marker (claude_get_messages_for_api
                (apply_calls (CLAUDE_EXAMPLES demo_templates) (ConversationBuffer 20)
                  [InjectExamples, AddMessage ''user'' ''q1'', AddMessage ''assistant'' ''a1'',
                   AddMessage ''user'' ''q2'', AddMessage ''assistant'' ''a2'']) ! i)} = {0, 2}"
proof -
  define b where "b = apply_calls (CLAUDE_EXAMPLES demo_templates) (ConversationBuffer 20)
         [InjectExamples, AddMessage ''user'' ''q1'', AddMessage ''assistant'' ''a1'',
          AddMessage ''user'' ''q2'', AddMessage ''assistant'' ''a2'']"
  have inj: "examples_injected b" by (simp add: b_def buffer_eval)
  have len: "length (messages b) = 6" by (simp add: b_def buffer_eval)
  have k: "length (messages b) - 4 = 2" by (simp add: len)
  have n: "(3::int) \<le> 20" by simp
  have lt: "5 < length (messages b)" by (simp add: len)
  from cache_boundary[OF n b_def inj lt refl]
  have "{i. i < length (claude_get_messages_for_api b) \<and> has_cache_marker (claude_get_messages_for_api b ! i)}
          = {0, length (messages b) - 4}"
    by (rule conjunct2)
  then have "{i. i < length (claude_get_messages_for_api b) \<and> has_cache_marker (claude_get_messages_for_api b ! i)} = {0, 2}"
    unfolding k .
  with inj len show ?thesis unfolding b_def by blast
qed

subsection \<open>C1: the order of a file's modifications\<close>



subsection \<open>C10: the merging of the entries of one file\<close>

text \<open>
  As stated, the claim fails on an input with an entry that lists no modification: a key
  enters \<^verbatim>\<open>file_modifications\<close> only when a modification is appended to its list, so the
  path of such an entry gets no output entry from it, and the order of the output is that
  of the first modification of each path.
\<close>

theorem merge_counterexample:
  "map change_file (sort_modifications
     [\<lparr>change_file = Some ''a.js'', change_content = None, modifications = Some []\<rparr>,
      \<lparr>change_file = Some ''b.js'', change_content = None,
       modifications = Some [\<lparr>operation = Some ''delete'', start_line = Some 1, end_line = Some 1,
                              new_content = None, old_content = None\<rparr>]\<rparr>,
      \<lparr>change_file = Some ''a.js'', change_content = None,
       modifications = Some [\<lparr>operation = Some ''delete'', start_line = Some 2, end_line = Some 2,
                              new_content = None, old_content = None\<rparr>]\<rparr>,
      \<lparr>change_file = Some ''c.js'', change_content = None, modifications = Some []\<rparr>])
   = [Some ''b.js'', Some ''a.js'']"
  by (simp add: sort_eval)

text \<open>
  C10, amended: \<^verbatim>\<open>sort_modifications\<close> merges the entries of one file path: the output
  has exactly one entry for each distinct path for which the input lists at least one
  modification, these entries appear in the order in which their paths first appear among
  the input entries with a non-empty modification list, and each entry's modification
  list contains exactly the modifications that the input lists for its path.
\<close>

theorem sort_modifications_merges:
  "map change_file (sort_modifications cs) = map Some (first_appearances (with_modifications cs))
   \<and> distinct (map change_file (sort_modifications cs))
   \<and> map (\<lambda>e. map_option mset (modifications e)) (sort_modifications cs)
       = map (\<lambda>p. Some (mset (listed_for p cs))) (first_appearances (with_modifications cs))"
  by (simp add: sort_modifications_closed_form comp_def sorted_reverse_mset distinct_map inj_on_def)

subsection \<open>C5: a payload without a known type\<close>




text \<open>The payload without a \<^verbatim>\<open>type\<close>, run through the handler.\<close>

lemma missing_type_example:
  \<open>map_sum id (\<lambda>resp. (response_type resp, is_code_change resp, request_type resp))
     (fst (process_chat_request
        (demo_env (Inr (''Done. {"summary": "s"}'', Map.empty)) ''{"summary": "s"}''
           \<lparr>type = None, changes = None, summary = Some ''s'', error = None\<rparr>)
        demo_templates (demo_request None) empty_store))
   = Inr (''code_generation'', True, ''generation'')\<close>
  by (simp add: handler_eval)

subsection \<open>C6: the usage record\<close>

text \<open>
  As stated, the claim fails for OpenAI: \<^verbatim>\<open>TokenUsage\<close> has a fifth field, \<^verbatim>\<open>cached_tokens\<close>,
  which receives OpenAI's cached figure, and \<^verbatim>\<open>cache_read_input_tokens\<close> is set to 0.
\<close>

theorem usage_counterexample:
  "map_sum id usage
     (fst (process_chat_request
        (demo_env (Inr (''Hello'', [''prompt_tokens'' \<mapsto> 10, ''completion_tokens'' \<mapsto> 5,
                                  ''cached_tokens'' \<mapsto> 7])) ''{}''
           \<lparr>type = None, changes = None, summary = None, error = None\<rparr>)
        demo_templates (demo_request (Some ''gpt-4o'')) empty_store))
   = Inr (Some \<lparr>input_tokens = 10, output_tokens = 5, cache_creation_input_tokens = 0,
                cache_read_input_tokens = 0, cached_tokens = 7\<rparr>)"
  by (simp add: handler_eval)

text \<open>
  C6, amended: for every provider call that returns, the handler returns a response whose
  usage record has the five fields \<^verbatim>\<open>input_tokens\<close>, \<^verbatim>\<open>output_tokens\<close>,
  \<^verbatim>\<open>cache_creation_input_tokens\<close>, \<^verbatim>\<open>cache_read_input_tokens\<close> and \<^verbatim>\<open>cached_tokens\<close>, a figure
  that the provider does not report being 0. For Claude the first four fields are the
  reported figures of the same names and \<^verbatim>\<open>cached_tokens\<close> is 0; for OpenAI the first two
  are \<^verbatim>\<open>prompt_tokens\<close> and \<^verbatim>\<open>completion_tokens\<close>, the single cached figure is kept in
  \<^verbatim>\<open>cached_tokens\<close>, and the two cache fields of Claude are 0.
\<close>

theorem usage_normalized:
  assumes "call_api E (begin_turn E T request st) = Inr (response, u)"
  shows "\<exists>resp. fst (process_chat_request E T request st) = Inr resp
           \<and> usage resp = Some
               (if determine_provider (request_model_name request) = ''claude'' then
                  \<lparr>input_tokens = get_or (u ''input_tokens'') 0,
                   output_tokens = get_or (u ''output_tokens'') 0,
                   cache_creation_input_tokens = get_or (u ''cache_creation_input_tokens'') 0,
                   cache_read_input_tokens = get_or (u ''cache_read_input_tokens'') 0,
                   cached_tokens = 0\<rparr>
                else
                  \<lparr>input_tokens = get_or (u ''prompt_tokens'') 0,
                   output_tokens = get_or (u ''completion_tokens'') 0,
                   cache_creation_input_tokens = 0,
                   cache_read_input_tokens = 0,
                   cached_tokens = get_or (u ''cached_tokens'') 0\<rparr>)"
  using process_chat_request_reply[OF assms]
  by (simp add: prepare_token_usage_def)

theorem usage_normalized_witness:
  "map_sum id usage
     (fst (process_chat_request
        (demo_env (Inr (''Hello'', [''input_tokens'' \<mapsto> 12, ''cache_read_input_tokens'' \<mapsto> 9])) ''{}''
           \<lparr>type = None, changes = None, summary = None, error = None\<rparr>)
        demo_templates (demo_request (Some ''claude-sonnet-4'')) empty_store))
   = Inr (Some \<lparr>input_tokens = 12, output_tokens = 0, cache_creation_input_tokens = 0,
                cache_read_input_tokens = 9, cached_tokens = 0\<rparr>)"
proof -
  define E where "E = demo_env (Inr (''Hello'', [''input_tokens'' \<mapsto> 12, ''cache_read_input_tokens'' \<mapsto> (9::int)])) ''{}''
           \<lparr>type = None, changes = None, summary = None, error = None\<rparr>"
  have c: "call_api E (begin_turn E demo_templates (demo_request (Some ''claude-sonnet-4'')) empty_store)
             = Inr (''Hello'', [''input_tokens'' \<mapsto> 12, ''cache_read_input_tokens'' \<mapsto> 9])"
    by (simp add: E_def call_api_def claude_call_api_def openai_call_api_def demo_env_def)
  have p: "determine_provider (request_model_name (demo_request (Some ''claude-sonnet-4''))) = ''claude''"
    by (simp add: determine_provider_def request_model_name_def demo_request_def is_claude_model_def)
  from usage_normalized[OF c] show ?thesis
    unfolding E_def[symmetric] p by (auto simp: get_or_def)
qed

subsection \<open>C7: a provider call that fails\<close>

text \<open>
  C7: if the provider call raises, the handler raises one \<^verbatim>\<open>HTTPException\<close> (status 500, the
  text of the failure), and the session's buffer is the one that was passed to the call:
  the buffer after \<^verbatim>\<open>add_message("user", ...)\<close>, with the user message of this turn as its
  last message and no assistant message appended. The other sessions are untouched, and no
  generated code is stored.
\<close>

theorem provider_failure:
  assumes "call_api E (begin_turn E T request st) = Inl e"
    and "prov = determine_provider (request_model_name request)"
    and "sid = session_id request"
    and "b = prepare_buffer T prov (session_buffer st prov sid)"
    and "msg = current_message E request (previous_code (session_generated_code st prov sid) sid)"
    and "st' = snd (process_chat_request E T request st)"
  shows "fst (process_chat_request E T request st) = Inl (HTTPException 500 (''API Error: '' @ e))
       \<and> conversations st' prov sid = Some (add_message ''user'' msg b)
       \<and> (3 \<le> max_messages b \<longrightarrow>
            messages (add_message ''user'' msg b) \<noteq> []
            \<and> last (messages (add_message ''user'' msg b)) = \<lparr>role = ''user'', content = Text msg\<rparr>)
       \<and> (\<forall>p s. (p, s) \<noteq> (prov, sid) \<longrightarrow> conversations st' p s = conversations st p s)
       \<and> generated_code st' = session_generated_code st prov sid"
proof -
  have t: "turn_buffer (begin_turn E T request st) = add_message ''user'' msg b"
    "turn_generated_code (begin_turn E T request st) = session_generated_code st prov sid"
    "turn_provider (begin_turn E T request st) = prov"
    by (simp_all add: begin_turn_def Let_def assms(2-5))
  have "process_chat_request E T request st =
          (Inl (HTTPException 500 (''API Error: '' @ e)),
           store_turn st request (begin_turn E T request st) (add_message ''user'' msg b)
             (session_generated_code st prov sid))"
    using assms(1) t by (simp add: process_chat_request_def Let_def)
  then show ?thesis
    using last_add_user[of b msg] t(3) assms(3)
    by (auto simp: assms(6) store_turn_def)
qed

theorem provider_failure_witness:
  "call_api (demo_env (Inl ''timed out'') ''{}'' \<lparr>type = None, changes = None, summary = None, error = None\<rparr>)
     (begin_turn (demo_env (Inl ''timed out'') ''{}'' \<lparr>type = None, changes = None, summary = None, error = None\<rparr>)
        demo_templates (demo_request None) empty_store)
     = Inl ''Claude API Error: timed out''
   \<and> fst (process_chat_request
        (demo_env (Inl ''timed out'') ''{}'' \<lparr>type = None, changes = None, summary = None, error = None\<rparr>)
        demo_templates (demo_request None) empty_store)
     = Inl (HTTPException 500 ''API Error: Claude API Error: timed out'')
   \<and> map_option (\<lambda>b. map role (messages b))
        (conversations (snd (process_chat_request
           (demo_env (Inl ''timed out'') ''{}'' \<lparr>type = None, changes = None, summary = None, error = None\<rparr>)
           demo_templates (demo_request None) empty_store)) ''claude'' ''default'')
     = Some [''user'', ''assistant'', ''user'']"
proof -
  define E where "E = demo_env (Inl ''timed out'') ''{}'' \<lparr>type = None, changes = None, summary = None, error = None\<rparr>"
  have c: "call_api E (begin_turn E demo_templates (demo_request None) empty_store)
             = Inl ''Claude API Error: timed out''"
    by (simp add: E_def call_api_def claude_call_api_def begin_turn_def demo_env_def demo_request_def
        request_model_name_def determine_provider_def is_claude_model_def Let_def)
  have p: "determine_provider (request_model_name (demo_request None)) = ''claude''"
    by (simp add: determine_provider_def request_model_name_def demo_request_def is_claude_model_def)
  have s: "session_id (demo_request None) = ''default''" by (simp add: demo_request_def)
  have b: "prepare_buffer demo_templates ''claude'' (session_buffer empty_store ''claude'' ''default'')
             = \<lparr>messages = CLAUDE_EXAMPLES demo_templates, max_messages = 20, examples_injected = True\<rparr>"
    by (simp add: prepare_buffer_def session_buffer_def empty_store_def ConversationBuffer_def
        claude_inject_examples_def inject_examples_def)
  note pf = provider_failure[OF c p[symmetric] s[symmetric] refl refl refl]
  have r: "map role (messages (add_message ''user'' m
              \<lparr>messages = CLAUDE_EXAMPLES demo_templates, max_messages = 20, examples_injected = True\<rparr>))
           = [''user'', ''assistant'', ''user'']" for m
    by (simp add: add_message_def trim_if_needed_def CLAUDE_EXAMPLES_def)
  from pf c show ?thesis
    unfolding E_def[symmetric] b by (simp add: r)
qed

end
